theory Spec2Isabelle
  imports Complex_Main
begin

section \<open>Data contracts (types/index.ts)\<close>

text \<open>
  The session state and its parts, as declared in \<^verbatim>\<open>types/index.ts\<close>. A JavaScript
  \<^verbatim>\<open>number\<close> is modelled as an exact rational: every finite double is one, and the
  arithmetic of the model is exact where the program rounds to the nearest double.
  A JavaScript string is a list of code units; a \<^typ>\<open>char\<close> stands for a code unit
  below 256.
\<close>

datatype phase = idle | listening | processing | speaking

datatype role = user | assistant | system

datatype tone = professional | uncertain | casual | aggressive

record Message =
  role :: role
  content :: string

record AnalysisMetrics =
  confidence_score :: rat
  pacing_wpm :: rat
  clarity_score :: rat
  tone :: tone
  feedback_text :: string

record APIResponse =
  reply :: string
  analysis :: AnalysisMetrics

record SpeechResult =
  transcript :: string
  duration :: rat

record InterviewState =
  phase :: phase
  transcript :: string
  history :: "Message list"
  stats :: AnalysisMetrics
  allStats :: "AnalysisMetrics list"
  error :: "string option"

definition EMPTY_METRICS :: AnalysisMetrics where
  "EMPTY_METRICS =
     \<lparr>confidence_score = 0, pacing_wpm = 0, clarity_score = 0,
      tone = professional, feedback_text = ''''\<rparr>"

section \<open>Strings and pacing (lib/speech.ts)\<close>

text \<open>
  The white space of \<^verbatim>\<open>String.prototype.trim\<close> and of the regular expression class
  \<^verbatim>\<open>\s\<close>, among the code units below 256: tab, line feed, vertical tab, form feed,
  carriage return, space and the no-break space.
\<close>

definition is_space :: "char \<Rightarrow> bool" where
  "is_space c = (of_char c \<in> {9, 10, 11, 12, 13, 32, 160 :: nat})"

definition trim :: "string \<Rightarrow> string" where
  "trim s = rev (dropWhile is_space (rev (dropWhile is_space s)))"

text \<open>
  \<^verbatim>\<open>s.split(/\s+/)\<close>: the pieces between the maximal runs of white space; a run at
  either end leaves an empty piece there, and the empty string gives one empty piece.
\<close>

function split_ws :: "string \<Rightarrow> string list" where
  "split_ws [] = [[]]"
| "split_ws (c # cs) =
     (if is_space c then [] # split_ws (dropWhile is_space cs)
      else (case split_ws cs of
              [] \<Rightarrow> [[c]]
            | w # ws \<Rightarrow> (c # w) # ws))"
  by pat_completeness auto
termination
  by (relation "measure length") (auto simp: length_dropWhile_le less_Suc_eq_le)

text \<open>
  \<^verbatim>\<open>calculateWPM\<close>: zero for a blank transcript or a non-positive duration, otherwise
  \<^verbatim>\<open>Math.round((wordCount / durationSeconds) * 60)\<close>. \<^verbatim>\<open>Math.round\<close> is
  \<open>\<lfloor>x + 1/2\<rfloor>\<close>, which is \<^const>\<open>round\<close>.
\<close>

definition calculateWPM :: "string \<Rightarrow> rat \<Rightarrow> int" where
  "calculateWPM t durationSeconds =
     (if trim t = [] \<or> durationSeconds \<le> 0 then 0
      else round ((of_nat (length (split_ws (trim t))) / durationSeconds) * 60))"

section \<open>Speech capture (hooks/useSpeechRecognition.ts)\<close>

text \<open>
  A value thrown or used to reject a promise is an \<^verbatim>\<open>Error\<close> object with its message
  (a \<^verbatim>\<open>SyntaxError\<close> is told apart: one handler tests for it) or something else; a
  promise settles once, with a value or with a rejection.
\<close>

datatype js_exn = Error string | SyntaxError string | NonError

datatype 'a settled = Resolved 'a | Rejected js_exn

record LiveTranscript =
  final :: string
  interim :: string
  wordCount :: nat

text \<open>
  The events the recognizer delivers to the handlers installed by \<^verbatim>\<open>startListening\<close>.
  \<^verbatim>\<open>onstart\<close>, \<^verbatim>\<open>onend\<close> and \<^verbatim>\<open>onerror\<close> carry the reading of \<^verbatim>\<open>Date.now()\<close> (in
  milliseconds) taken by the handler; \<^verbatim>\<open>onresult\<close> carries \<^verbatim>\<open>event.results\<close>, each
  result as its \<^verbatim>\<open>isFinal\<close> flag and the transcript of its first alternative;
  \<^verbatim>\<open>onerror\<close> carries \<^verbatim>\<open>event.error\<close>.
\<close>

datatype recognition_event =
    onstart int
  | onresult "(bool \<times> string) list"
  | onend int
  | onerror string int

text \<open>
  The state of the hook together with what one call of \<^verbatim>\<open>startListening\<close> closes over:
  the local variable \<^verbatim>\<open>finalTranscript\<close> and the promise it returned (\<open>None\<close> while
  pending).
\<close>

record recognition =
  isListening :: bool
  liveTranscript :: LiveTranscript
  speechDuration :: rat
  recognitionRef :: bool
  startTimeRef :: int
  finalTranscript :: string
  promise :: "SpeechResult settled option"

definition settle_promise :: "'a settled option \<Rightarrow> 'a settled \<Rightarrow> 'a settled option" where
  "settle_promise p v = (case p of None \<Rightarrow> Some v | Some w \<Rightarrow> Some w)"

text \<open>The loop of \<^verbatim>\<open>onresult\<close> over \<^verbatim>\<open>event.results\<close>: (finalTranscript, interim).\<close>

definition collect_results :: "(bool \<times> string) list \<Rightarrow> string \<times> string" where
  "collect_results results =
     foldl (\<lambda>(fin, int) (isFinal, t). if isFinal then (fin @ t, int) else (fin, int @ t))
       ([], []) results"

fun handle_event :: "recognition \<Rightarrow> recognition_event \<Rightarrow> recognition" where
  "handle_event r (onstart now) =
     r\<lparr>isListening := True,
       liveTranscript := \<lparr>final = [], interim = [], wordCount = 0\<rparr>,
       startTimeRef := now\<rparr>"
| "handle_event r (onresult results) =
     (let (fin, int) = collect_results results;
          combined = trim (fin @ int);
          wc = (if combined \<noteq> [] then length (split_ws combined) else 0)
      in r\<lparr>finalTranscript := fin,
            liveTranscript := \<lparr>final = fin, interim = int, wordCount = wc\<rparr>\<rparr>)"
| "handle_event r (onend now) =
     (let d = of_int (now - startTimeRef r) / 1000
      in r\<lparr>speechDuration := d, isListening := False, recognitionRef := False,
            promise := settle_promise (promise r)
              (Resolved \<lparr>SpeechResult.transcript = finalTranscript r, duration = d\<rparr>)\<rparr>)"
| "handle_event r (onerror e now) =
     (let d = of_int (now - startTimeRef r) / 1000
      in r\<lparr>isListening := False, recognitionRef := False,
            promise := settle_promise (promise r)
              (if e = ''no-speech''
               then Resolved \<lparr>SpeechResult.transcript = [], duration = d\<rparr>
               else Rejected (Error (''Speech recognition error: '' @ e)))\<rparr>)"

text \<open>
  \<^verbatim>\<open>startListening\<close>: rejects at once when the browser has no recognizer; otherwise it
  creates one, with a fresh \<^verbatim>\<open>finalTranscript\<close> and a pending promise, and the events
  that follow run the handlers.
\<close>

definition startListening :: "bool \<Rightarrow> recognition \<Rightarrow> recognition_event list \<Rightarrow> recognition" where
  "startListening supported r evs =
     (if \<not> supported
      then r\<lparr>promise :=
               Some (Rejected (Error ''SpeechRecognition not supported in this browser.''))\<rparr>
      else foldl handle_event
             (r\<lparr>recognitionRef := True, finalTranscript := [], promise := None\<rparr>) evs)"

text \<open>The results of the last \<^verbatim>\<open>onresult\<close> event among the events delivered so far.\<close>

fun result_events :: "recognition_event list \<Rightarrow> (bool \<times> string) list list" where
  "result_events [] = []"
| "result_events (onresult rs # evs) = rs # result_events evs"
| "result_events (_ # evs) = result_events evs"

definition last_results :: "recognition_event list \<Rightarrow> (bool \<times> string) list" where
  "last_results evs = (if result_events evs = [] then [] else last (result_events evs))"

section \<open>The reducer (hooks/useInterview.ts)\<close>

text \<open>
  The tagged actions. The optional flag \<^verbatim>\<open>isOpening\<close> of \<^verbatim>\<open>RECEIVE_RESPONSE\<close> is a
  boolean: an absent flag is falsy.
\<close>

datatype Action =
    START_LISTENING
  | UPDATE_TRANSCRIPT string
  | START_PROCESSING string
  | START_SPEAKING
  | RECEIVE_RESPONSE string AnalysisMetrics bool
  | FINISH_SPEAKING
  | SET_ERROR string
  | RESET

definition initialState :: InterviewState where
  "initialState =
     \<lparr>phase = idle, transcript = '''', history = [], stats = EMPTY_METRICS,
      allStats = [], error = None\<rparr>"

fun reducer :: "InterviewState \<Rightarrow> Action \<Rightarrow> InterviewState" where
  "reducer state START_LISTENING =
     state\<lparr>phase := listening, transcript := '''', error := None\<rparr>"
| "reducer state (UPDATE_TRANSCRIPT t) = state\<lparr>transcript := t\<rparr>"
| "reducer state (START_PROCESSING t) =
     state\<lparr>phase := processing,
           history := history state @ [\<lparr>role = user, content = t\<rparr>]\<rparr>"
| "reducer state (RECEIVE_RESPONSE r a isOpening) =
     state\<lparr>stats := a,
           allStats := (if isOpening then allStats state else allStats state @ [a]),
           history := history state @ [\<lparr>role = assistant, content = r\<rparr>]\<rparr>"
| "reducer state START_SPEAKING = state\<lparr>phase := speaking\<rparr>"
| "reducer state FINISH_SPEAKING = state\<lparr>phase := idle\<rparr>"
| "reducer state (SET_ERROR e) = state\<lparr>phase := idle, error := Some e\<rparr>"
| "reducer state RESET = initialState"

section \<open>The interview loop (hooks/useInterview.ts)\<close>

definition OPENING_QUESTION :: string where
  "OPENING_QUESTION =
     ''Welcome to your mock interview. Let's start with a classic: Tell me about a time you faced a significant challenge at work. What happened, and how did you handle it?''"

text \<open>The sentence that stands for a silent answer in the request (runLoop, line 139).\<close>

definition SILENT_ANSWER :: string where
  "SILENT_ANSWER = ''(The user was silent and didn't respond.)''"

text \<open>\<^verbatim>\<open>err instanceof Error ? err.message : fallback\<close>\<close>

fun message_or :: "js_exn \<Rightarrow> string \<Rightarrow> string" where
  "message_or (Error m) fallback = m"
| "message_or (SyntaxError m) fallback = m"
| "message_or NonError fallback = fallback"

text \<open>\<^verbatim>\<open>xs.slice(-n)\<close>: the last \<open>n\<close> elements, all of them when there are fewer.\<close>

definition slice_last :: "nat \<Rightarrow> 'a list \<Rightarrow> 'a list" where
  "slice_last n xs = drop (length xs - n) xs"

text \<open>\<^verbatim>\<open>res.ok\<close>: the status is in the range 200 to 299.\<close>

definition ok :: "nat \<Rightarrow> bool" where
  "ok status = (200 \<le> status \<and> status \<le> 299)"

text \<open>The decimal digits of a number, as a template literal prints it.\<close>

fun show_nat :: "nat \<Rightarrow> string" where
  "show_nat n =
     (if n < 10 then [''0123456789'' ! n]
      else show_nat (n div 10) @ [''0123456789'' ! (n mod 10)])"

text \<open>\<^verbatim>\<open>err.error || `API error: ${res.status}`\<close>, for an error body whose \<^verbatim>\<open>error\<close>
  field is a string or absent.\<close>

definition api_error_message :: "string option \<Rightarrow> nat \<Rightarrow> string" where
  "api_error_message err status =
     (case err of
        Some m \<Rightarrow> (if m \<noteq> [] then m else ''API error: '' @ show_nat status)
      | None \<Rightarrow> ''API error: '' @ show_nat status)"

text \<open>
  The asynchronous functions \<^verbatim>\<open>startInterview\<close> and \<^verbatim>\<open>runLoop\<close> run until their next
  \<^verbatim>\<open>await\<close> and are resumed when the awaited promise settles. A suspended call is
  the \<^verbatim>\<open>await\<close> it stopped at, with the local variables the rest of the function reads:
  \<^item> \<open>AwaitOpeningSpeak\<close>: \<^verbatim>\<open>await speak(OPENING_QUESTION)\<close> in \<^verbatim>\<open>startInterview\<close>;
  \<^item> \<open>AwaitListening\<close>: \<^verbatim>\<open>await startListening()\<close>;
  \<^item> \<open>AwaitFetch messages finalTranscript duration\<close>: \<^verbatim>\<open>await fetch('/api/chat', ...)\<close>,
    with the messages of the request body;
  \<^item> \<open>AwaitErrorBody status\<close>: \<^verbatim>\<open>await res.json()\<close> of a response that is not ok;
  \<^item> \<open>AwaitBody finalTranscript duration\<close>: \<^verbatim>\<open>await res.json()\<close> of an ok response;
  \<^item> \<open>AwaitSpeak\<close>: \<^verbatim>\<open>await speak(data.reply)\<close>;
  \<^item> \<open>Returned\<close>: \<^verbatim>\<open>startInterview\<close> has returned.
  \<^verbatim>\<open>await runLoop()\<close> in the \<^verbatim>\<open>while\<close> loop of \<^verbatim>\<open>startInterview\<close> resumes in the same
  turn of the event loop in which \<^verbatim>\<open>runLoop\<close> returns, so it is not a state of its own.
\<close>

datatype suspension =
    AwaitOpeningSpeak
  | AwaitListening
  | AwaitFetch "Message list" string rat
  | AwaitErrorBody nat
  | AwaitBody string rat
  | AwaitSpeak
  | Returned

text \<open>What an awaited promise settles with; a response is its HTTP status.\<close>

datatype outcome =
    speak_settled "unit settled"
  | listening_settled "SpeechResult settled"
  | fetch_settled "nat settled"
  | error_body_settled "string option settled"
  | body_settled "APIResponse settled"

text \<open>
  \<^verbatim>\<open>while (isRunningRef.current) { await runLoop(); }\<close> after the actions \<open>acts\<close>: with the
  flag set, \<^verbatim>\<open>runLoop\<close> dispatches \<^verbatim>\<open>START_LISTENING\<close> and suspends in
  \<^verbatim>\<open>startListening\<close>; otherwise \<^verbatim>\<open>startInterview\<close> returns.
\<close>

definition next_round :: "Action list \<Rightarrow> bool \<Rightarrow> Action list \<times> suspension" where
  "next_round acts running =
     (if running then (acts @ [START_LISTENING], AwaitListening) else (acts, Returned))"

text \<open>
  The code that runs when the promise a call is suspended on settles, up to the next
  \<^verbatim>\<open>await\<close>: the actions it dispatches, in order, and where it suspends again.
  \<open>running\<close> is \<^verbatim>\<open>isRunningRef.current\<close> and \<open>hist\<close> is \<^verbatim>\<open>historyRef.current\<close>, the
  history of the last rendered state. \<open>None\<close>: the promise is not the one awaited.
\<close>

fun resume :: "bool \<Rightarrow> Message list \<Rightarrow> suspension \<Rightarrow> outcome \<Rightarrow> (Action list \<times> suspension) option" where
  "resume running hist AwaitOpeningSpeak (speak_settled _) =
     Some (next_round [FINISH_SPEAKING] running)"
| "resume running hist AwaitListening (listening_settled (Rejected e)) =
     Some (next_round [SET_ERROR (message_or e ''Microphone error'')] running)"
| "resume running hist AwaitListening (listening_settled (Resolved result)) =
     Some (if \<not> running then ([], Returned)
           else if trim (SpeechResult.transcript result) = []
           then ([UPDATE_TRANSCRIPT [], START_PROCESSING []],
                 AwaitFetch (slice_last 10 hist @ [\<lparr>role = user, content = SILENT_ANSWER\<rparr>])
                   SILENT_ANSWER 0)
           else ([UPDATE_TRANSCRIPT (SpeechResult.transcript result),
                  START_PROCESSING (SpeechResult.transcript result)],
                 AwaitFetch
                   (slice_last 10 hist
                     @ [\<lparr>role = user, content = SpeechResult.transcript result\<rparr>])
                   (SpeechResult.transcript result) (duration result)))"
| "resume running hist (AwaitFetch msgs ft d) (fetch_settled (Rejected e)) =
     Some (next_round [SET_ERROR (message_or e ''Something went wrong'')] running)"
| "resume running hist (AwaitFetch msgs ft d) (fetch_settled (Resolved status)) =
     Some (if \<not> running then ([], Returned)
           else if \<not> ok status then ([], AwaitErrorBody status)
           else ([], AwaitBody ft d))"
| "resume running hist (AwaitErrorBody status) (error_body_settled (Rejected e)) =
     Some (next_round [SET_ERROR (message_or e ''Something went wrong'')] running)"
| "resume running hist (AwaitErrorBody status) (error_body_settled (Resolved err)) =
     Some (next_round [SET_ERROR (api_error_message err status)] running)"
| "resume running hist (AwaitBody ft d) (body_settled (Rejected e)) =
     Some (next_round [SET_ERROR (message_or e ''Something went wrong'')] running)"
| "resume running hist (AwaitBody ft d) (body_settled (Resolved data)) =
     Some ([RECEIVE_RESPONSE (reply data)
              ((analysis data)\<lparr>pacing_wpm := of_int (calculateWPM ft d)\<rparr>)
              False,
            START_SPEAKING],
           AwaitSpeak)"
| "resume running hist AwaitSpeak (speak_settled (Rejected e)) =
     Some (next_round [SET_ERROR (message_or e ''Something went wrong'')] running)"
| "resume running hist AwaitSpeak (speak_settled (Resolved u)) =
     Some (if \<not> running then ([], Returned) else next_round [FINISH_SPEAKING] running)"
| "resume running hist _ _ = None"

text \<open>
  The hook: the reducer's state, the run flag \<^verbatim>\<open>isRunningRef\<close> and the calls of
  \<^verbatim>\<open>startInterview\<close> made so far, each suspended or returned. \<^verbatim>\<open>historyRef.current\<close>
  is assigned \<^verbatim>\<open>state.history\<close> at every render, and the state is rendered between two
  turns of the event loop, so a resumed call reads the history of the current state.
\<close>

record session =
  state :: InterviewState
  isRunningRef :: bool
  calls :: "suspension list"

definition initial_session :: session where
  "initial_session = \<lparr>state = initialState, isRunningRef = False, calls = []\<rparr>"

text \<open>
  What happens to the hook: the presentation layer calls \<^verbatim>\<open>startInterview\<close> or
  \<^verbatim>\<open>endInterview\<close>, or the promise awaited by call number \<open>i\<close> settles.
\<close>

datatype event = startInterview | endInterview | settle nat outcome

text \<open>
  One turn of the event loop: the actions dispatched, the run flag and the calls
  afterwards. The side effects on audio, speech synthesis and the recognizer leave the
  hook's state alone and are left out; what they cause arrives as later events.
\<close>

fun react :: "session \<Rightarrow> event \<Rightarrow> Action list \<times> bool \<times> suspension list" where
  "react s startInterview =
     (if isRunningRef s then ([], isRunningRef s, calls s)
      else ([RESET, RECEIVE_RESPONSE OPENING_QUESTION EMPTY_METRICS True, START_SPEAKING],
            True, calls s @ [AwaitOpeningSpeak]))"
| "react s endInterview = ([FINISH_SPEAKING], False, calls s)"
| "react s (settle i out) =
     (if i < length (calls s)
      then (case resume (isRunningRef s) (history (state s)) (calls s ! i) out of
              None \<Rightarrow> ([], isRunningRef s, calls s)
            | Some (acts, k) \<Rightarrow> (acts, isRunningRef s, (calls s)[i := k]))
      else ([], isRunningRef s, calls s))"

definition dispatch :: "InterviewState \<Rightarrow> Action list \<Rightarrow> InterviewState" where
  "dispatch st acts = foldl reducer st acts"

definition step :: "session \<Rightarrow> event \<Rightarrow> session" where
  "step s ev =
     (case react s ev of
        (acts, running, cs) \<Rightarrow>
          \<lparr>state = dispatch (state s) acts, isRunningRef = running, calls = cs\<rparr>)"

definition run :: "session \<Rightarrow> event list \<Rightarrow> session" where
  "run s evs = foldl step s evs"

text \<open>Every action dispatched along a sequence of events, in order.\<close>

fun dispatched :: "session \<Rightarrow> event list \<Rightarrow> Action list" where
  "dispatched s [] = []"
| "dispatched s (ev # evs) = fst (react s ev) @ dispatched (step s ev) evs"

text \<open>
  The transitions of the phase that the state machine's table allows: idle to speaking
  (start), idle to listening (a round begins), listening to processing, processing to
  speaking, and from any phase to idle (speech finished, a failure, or end).
\<close>

fun table :: "phase \<Rightarrow> phase \<Rightarrow> bool" where
  "table idle speaking = True"
| "table idle listening = True"
| "table listening processing = True"
| "table processing speaking = True"
| "table _ idle = True"
| "table _ _ = False"

text \<open>Every reducer step along \<open>acts\<close> keeps the phase or moves it along the table.\<close>

fun follows_table :: "InterviewState \<Rightarrow> Action list \<Rightarrow> bool" where
  "follows_table st [] = True"
| "follows_table st (a # acts) =
     ((phase (reducer st a) = phase st \<or> table (phase st) (phase (reducer st a)))
      \<and> follows_table (reducer st a) acts)"

section \<open>The analysis endpoint (api/chat/route.ts)\<close>

text \<open>JSON values; an object is the list of its fields, each key once.\<close>

datatype json =
    JNull
  | JBool bool
  | JNum rat
  | JStr string
  | JArr "json list"
  | JObj "(string \<times> json) list"

text \<open>
  \<^verbatim>\<open>v.k\<close> for the keys the handlers read (none of them is a property of a string, a
  number, a boolean or an array): \<open>None\<close> is \<^verbatim>\<open>undefined\<close>, and reading a property of
  \<^verbatim>\<open>null\<close> throws a \<^verbatim>\<open>TypeError\<close>.
\<close>

definition read_prop :: "json \<Rightarrow> string \<Rightarrow> js_exn + json option" where
  "read_prop v k =
     (case v of
        JNull \<Rightarrow> Inl (Error ''Cannot read properties of null'')
      | JObj fs \<Rightarrow> Inr (map_of fs k)
      | _ \<Rightarrow> Inr None)"

text \<open>Truthiness: \<^verbatim>\<open>undefined\<close>, \<^verbatim>\<open>null\<close>, \<^verbatim>\<open>false\<close>, \<^verbatim>\<open>0\<close> and \<^verbatim>\<open>""\<close> are falsy.\<close>

fun truthy :: "json option \<Rightarrow> bool" where
  "truthy None = False"
| "truthy (Some JNull) = False"
| "truthy (Some (JBool b)) = b"
| "truthy (Some (JNum x)) = (x \<noteq> 0)"
| "truthy (Some (JStr t)) = (t \<noteq> [])"
| "truthy (Some (JArr xs)) = True"
| "truthy (Some (JObj fs)) = True"

fun is_string :: "json option \<Rightarrow> bool" where
  "is_string (Some (JStr t)) = True"
| "is_string _ = False"

fun is_array :: "json option \<Rightarrow> bool" where
  "is_array (Some (JArr xs)) = True"
| "is_array _ = False"

fun elements :: "json option \<Rightarrow> json list" where
  "elements (Some (JArr xs)) = xs"
| "elements _ = []"

text \<open>A response built by \<^verbatim>\<open>NextResponse.json(body, {status})\<close>; the status is 200 when
  none is given.\<close>

record NextResponse =
  status :: nat
  body :: json

fun tone_name :: "tone \<Rightarrow> string" where
  "tone_name professional = ''professional''"
| "tone_name uncertain = ''uncertain''"
| "tone_name casual = ''casual''"
| "tone_name aggressive = ''aggressive''"

text \<open>The JSON text of the typed values, as \<^verbatim>\<open>NextResponse.json\<close> serialises them.\<close>

definition metrics_json :: "AnalysisMetrics \<Rightarrow> json" where
  "metrics_json a =
     JObj [(''confidence_score'', JNum (confidence_score a)),
           (''pacing_wpm'', JNum (pacing_wpm a)),
           (''clarity_score'', JNum (clarity_score a)),
           (''tone'', JStr (tone_name (tone a))),
           (''feedback_text'', JStr (feedback_text a))]"

definition response_json :: "APIResponse \<Rightarrow> json" where
  "response_json r = JObj [(''reply'', JStr (reply r)), (''analysis'', metrics_json (analysis r))]"

definition error_json :: "string \<Rightarrow> json" where
  "error_json m = JObj [(''error'', JStr m)]"

definition FALLBACK_RESPONSE :: APIResponse where
  "FALLBACK_RESPONSE =
     \<lparr>reply = ''I'm having trouble processing that. Could you try rephrasing your answer?'',
      analysis =
        \<lparr>confidence_score = 50, pacing_wpm = 0, clarity_score = 50, tone = professional,
         feedback_text = ''Take a moment to organize your thoughts before responding.''\<rparr>\<rparr>"

text \<open>
  The loop of \<^verbatim>\<open>POST\<close> over the messages (app/api/chat/route.ts, lines 64 to 71):
  \<open>Inr False\<close> at the first message without a truthy role or a non-empty string as
  content, \<open>Inl\<close> when a message is \<^verbatim>\<open>null\<close>.
\<close>

fun validate_messages :: "json list \<Rightarrow> js_exn + bool" where
  "validate_messages [] = Inr True"
| "validate_messages (msg # rest) =
     (case read_prop msg ''role'' of
        Inl e \<Rightarrow> Inl e
      | Inr r \<Rightarrow>
          if \<not> truthy r then Inr False
          else (case read_prop msg ''content'' of
                  Inl e \<Rightarrow> Inl e
                | Inr c \<Rightarrow>
                    if \<not> truthy c \<or> \<not> is_string c then Inr False
                    else validate_messages rest))"

text \<open>
  The \<^verbatim>\<open>try\<close> block of \<^verbatim>\<open>POST\<close> in app/api/chat/route.ts: \<open>Inl\<close> is a value thrown
  inside it. \<open>request\<close> is what \<^verbatim>\<open>request.json()\<close> settles with; \<open>completion\<close> is what
  the call of the model settles with, read as \<^verbatim>\<open>choices[0]?.message?.content\<close>
  (\<open>None\<close> for \<^verbatim>\<open>null\<close> or \<^verbatim>\<open>undefined\<close>); \<open>parse\<close> is \<^verbatim>\<open>JSON.parse\<close>, \<open>None\<close> where it
  throws.
\<close>

definition POST_try ::
  "(string \<Rightarrow> json option) \<Rightarrow> json settled \<Rightarrow> string option settled \<Rightarrow> js_exn + NextResponse" where
  "POST_try parse request completion =
     (case request of
        Rejected e \<Rightarrow> Inl e
      | Resolved b \<Rightarrow>
     (case read_prop b ''messages'' of
        Inl e \<Rightarrow> Inl e
      | Inr messages \<Rightarrow>
     if \<not> truthy messages \<or> \<not> is_array messages
     then Inr \<lparr>status = 400, body = error_json ''Invalid request: messages array required''\<rparr>
     else
     (case validate_messages (elements messages) of
        Inl e \<Rightarrow> Inl e
      | Inr False \<Rightarrow>
          Inr \<lparr>status = 400,
               body = error_json ''Invalid message format: role and content required''\<rparr>
      | Inr True \<Rightarrow>
     (case completion of
        Rejected e \<Rightarrow> Inl e
      | Resolved None \<Rightarrow> Inr \<lparr>status = 200, body = response_json FALLBACK_RESPONSE\<rparr>
      | Resolved (Some c) \<Rightarrow>
     if c = [] then Inr \<lparr>status = 200, body = response_json FALLBACK_RESPONSE\<rparr>
     else
     (case parse c of
        None \<Rightarrow> Inl (SyntaxError ''Unexpected token'')
      | Some parsed \<Rightarrow>
     (case read_prop parsed ''reply'' of
        Inl e \<Rightarrow> Inl e
      | Inr r \<Rightarrow>
     if \<not> is_string r then Inr \<lparr>status = 200, body = response_json FALLBACK_RESPONSE\<rparr>
     else
     (case read_prop parsed ''analysis'' of
        Inl e \<Rightarrow> Inl e
      | Inr a \<Rightarrow>
     if \<not> truthy a then Inr \<lparr>status = 200, body = response_json FALLBACK_RESPONSE\<rparr>
     else Inr \<lparr>status = 200, body = parsed\<rparr>)))))))"

text \<open>\<^verbatim>\<open>POST\<close> of app/api/chat/route.ts: whatever is thrown is answered with the fallback.\<close>

definition POST ::
  "(string \<Rightarrow> json option) \<Rightarrow> json settled \<Rightarrow> string option settled \<Rightarrow> NextResponse" where
  "POST parse request completion =
     (case POST_try parse request completion of
        Inl e \<Rightarrow> \<lparr>status = 200, body = response_json FALLBACK_RESPONSE\<rparr>
      | Inr r \<Rightarrow> r)"

subsection \<open>The handler that sanitises (the second route handler of the repository)\<close>










section \<open>Counting turns and analyses\<close>



section \<open>Sample sessions\<close>

text \<open>The hook after the opening question has been spoken: a round is listening.\<close>

definition listening_session :: session where
  "listening_session =
     run initial_session [startInterview, settle 0 (speak_settled (Resolved ()))]"

definition sample_metrics :: AnalysisMetrics where
  "sample_metrics =
     \<lparr>confidence_score = 80, pacing_wpm = 7, clarity_score = 70, tone = casual,
      feedback_text = ''Give one concrete example.''\<rparr>"

text \<open>The first round after its request has been answered: the body is being read.\<close>

definition reading_session :: session where
  "reading_session =
     run listening_session
       [settle 0 (listening_settled
          (Resolved \<lparr>SpeechResult.transcript = ''hello there'', duration = 2\<rparr>)),
        settle 0 (fetch_settled (Resolved 200))]"

text \<open>
  The interview is ended while the first round listens and started again at once; the
  capture of the first round resolves after that.
\<close>

definition restart_events :: "event list" where
  "restart_events =
     [startInterview, settle 0 (speak_settled (Resolved ())), endInterview, startInterview,
      settle 0 (listening_settled
        (Resolved \<lparr>SpeechResult.transcript = ''hello'', duration = 1\<rparr>))]"

text \<open>The first round after its request has been sent.\<close>

definition fetching_session :: session where
  "fetching_session =
     run listening_session
       [settle 0 (listening_settled
          (Resolved \<lparr>SpeechResult.transcript = ''hello there'', duration = 2\<rparr>))]"

section \<open>Sample requests and answers\<close>

text \<open>The body of a request with one user message.\<close>

definition sample_request :: json where
  "sample_request =
     JObj [(''messages'',
            JArr [JObj [(''role'', JStr ''user''), (''content'', JStr ''hello there'')]])]"

text \<open>
  An answer of the model with a confidence score of the wrong type, a clarity score out
  of range and an unknown tone, and an answer without analysis.
\<close>

definition high_answer :: json where
  "high_answer =
     JObj [(''reply'', JStr ''Go on.''),
           (''analysis'',
            JObj [(''confidence_score'', JStr ''high''), (''clarity_score'', JNum 150),
                  (''tone'', JStr ''angry'')])]"

definition bare_answer :: json where
  "bare_answer = JObj [(''reply'', JStr ''Go on.'')]"

definition sample_parse :: "string \<Rightarrow> json option" where
  "sample_parse c =
     (if c = ''high'' then Some high_answer
      else if c = ''bare'' then Some bare_answer
      else None)"

text \<open>The body of the request, as \<^verbatim>\<open>JSON.stringify({ messages })\<close> writes it.\<close>

fun role_name :: "role \<Rightarrow> string" where
  "role_name user = ''user''"
| "role_name assistant = ''assistant''"
| "role_name system = ''system''"

definition message_json :: "Message \<Rightarrow> json" where
  "message_json m = JObj [(''role'', JStr (role_name (role m))), (''content'', JStr (content m))]"

definition request_json :: "Message list \<Rightarrow> json" where
  "request_json msgs = JObj [(''messages'', JArr (map message_json msgs))]"

text \<open>A silent round that is answered and spoken, and the capture of the next round.\<close>

definition silent_then_hello :: "event list" where
  "silent_then_hello =
     [settle 0 (listening_settled (Resolved \<lparr>SpeechResult.transcript = [], duration = 0\<rparr>)),
      settle 0 (fetch_settled (Resolved 200)),
      settle 0 (body_settled (Resolved \<lparr>reply = ''Go on.'', analysis = sample_metrics\<rparr>)),
      settle 0 (speak_settled (Resolved ())),
      settle 0 (listening_settled
        (Resolved \<lparr>SpeechResult.transcript = ''hello'', duration = 1\<rparr>))]"

section \<open>Sessions without overlapping calls\<close>

text \<open>
  The phase in which a call suspended at an await leaves the state while the run flag
  is set.
\<close>

fun expected_phase :: "suspension \<Rightarrow> phase" where
  "expected_phase AwaitOpeningSpeak = speaking"
| "expected_phase AwaitListening = listening"
| "expected_phase (AwaitFetch msgs t d) = processing"
| "expected_phase (AwaitErrorBody code) = processing"
| "expected_phase (AwaitBody t d) = processing"
| "expected_phase AwaitSpeak = speaking"
| "expected_phase Returned = idle"

text \<open>
  A sequence of events in which \<^verbatim>\<open>startInterview\<close> is called only while the run flag is
  set or after every earlier call has returned.
\<close>

fun no_overlap :: "session \<Rightarrow> event list \<Rightarrow> bool" where
  "no_overlap s [] = True"
| "no_overlap s (ev # evs) =
     ((if ev = startInterview
       then isRunningRef s \<or> list_all (\<lambda>k. k = Returned) (calls s)
       else True)
      \<and> no_overlap (step s ev) evs)"

text \<open>
  At most one call is suspended; with the run flag set there is one and the phase is
  the one it expects; with the flag cleared the phase is idle, or speaking when a reply
  that arrived after the end is or was being spoken.
\<close>

definition single_call :: "session \<Rightarrow> bool" where
  "single_call s =
     ((list_all (\<lambda>k. k = Returned) (calls s) \<and> \<not> isRunningRef s
        \<and> (phase (state s) = idle \<or> phase (state s) = speaking))
      \<or> (\<exists>i < length (calls s).
            calls s ! i \<noteq> Returned
            \<and> (\<forall>j < length (calls s). j \<noteq> i \<longrightarrow> calls s ! j = Returned)
            \<and> (if isRunningRef s then phase (state s) = expected_phase (calls s ! i)
               else phase (state s) = idle
                    \<or> (phase (state s) = speaking \<and> calls s ! i = AwaitSpeak))))"

section \<open>Properties of the reducer\<close>

text \<open>
  C10. The \<^verbatim>\<open>SET_ERROR\<close> transition moves the phase to idle and records the error
  message; history, stats, allStats and transcript are exactly what they were before, so
  no recorded turn or metric is removed or rewritten by an error.
\<close>

theorem set_error_frame:
  "reducer st (SET_ERROR e) = st\<lparr>phase := idle, error := Some e\<rparr>
   \<and> phase (reducer st (SET_ERROR e)) = idle
   \<and> error (reducer st (SET_ERROR e)) = Some e
   \<and> history (reducer st (SET_ERROR e)) = history st
   \<and> stats (reducer st (SET_ERROR e)) = stats st
   \<and> allStats (reducer st (SET_ERROR e)) = allStats st
   \<and> transcript (reducer st (SET_ERROR e)) = transcript st"
  by simp

section \<open>Properties of speech capture\<close>

lemma collect_results_acc:
  "foldl (\<lambda>(fin, int) (isFinal, t). if isFinal then (fin @ t, int) else (fin, int @ t)) (f, i) rs
   = (f @ concat (map snd (filter fst rs)), i @ concat (map snd (filter (\<lambda>x. \<not> fst x) rs)))"
  by (induction rs arbitrary: f i) (auto split: prod.splits)

lemma collect_results_eq:
  "collect_results rs =
     (concat (map snd (filter fst rs)), concat (map snd (filter (\<lambda>x. \<not> fst x) rs)))"
  unfolding collect_results_def by (simp add: collect_results_acc)

lemma result_events_append:
  "result_events (xs @ ys) = result_events xs @ result_events ys"
  by (induction xs rule: result_events.induct) auto

lemma finalTranscript_foldl:
  "finalTranscript (foldl handle_event r evs) =
     (if result_events evs = [] then finalTranscript r
      else concat (map snd (filter fst (last (result_events evs)))))"
proof (induction evs rule: rev_induct)
  case Nil
  then show ?case by simp
next
  case (snoc e evs)
  then show ?case
    by (cases e) (auto simp: result_events_append collect_results_eq Let_def)
qed

text \<open>
  C9. While the promise of \<^verbatim>\<open>startListening\<close> is pending, the end of recognition
  resolves it with the concatenation of the segments flagged final in the last results
  delivered (the empty string when none were), and with the elapsed time. The interim
  segments of a result event are shown in the live transcript, and are no part of the
  transcript kept for the resolution. The only other resolution, on the error
  \<^verbatim>\<open>no-speech\<close>, carries the empty transcript.
\<close>

theorem resolved_transcript_is_finalized:
  assumes "promise (startListening True r evs) = None"
  shows "promise (startListening True r (evs @ [onend now])) =
           Some (Resolved
             \<lparr>SpeechResult.transcript = concat (map snd (filter fst (last_results evs))),
              duration = of_int (now - startTimeRef (startListening True r evs)) / 1000\<rparr>)
         \<and> interim (liveTranscript (startListening True r (evs @ [onresult rs]))) =
             concat (map snd (filter (\<lambda>x. \<not> fst x) rs))
         \<and> finalTranscript (startListening True r (evs @ [onresult rs])) =
             concat (map snd (filter fst rs))
         \<and> promise (startListening True r (evs @ [onerror ''no-speech'' now])) =
             Some (Resolved
               \<lparr>SpeechResult.transcript = [],
                duration = of_int (now - startTimeRef (startListening True r evs)) / 1000\<rparr>)"
  using assms
  by (simp add: startListening_def finalTranscript_foldl last_results_def settle_promise_def
      Let_def collect_results_eq)

theorem resolved_transcript_is_finalized_witness:
  "promise (startListening True
      \<lparr>isListening = False, liveTranscript = \<lparr>final = [], interim = [], wordCount = 0\<rparr>,
       speechDuration = 0, recognitionRef = False, startTimeRef = 0, finalTranscript = [],
       promise = None\<rparr>
      [onstart 1000, onresult [(True, ''hello ''), (False, ''wor'')]]) = None
   \<and> promise (startListening True
      \<lparr>isListening = False, liveTranscript = \<lparr>final = [], interim = [], wordCount = 0\<rparr>,
       speechDuration = 0, recognitionRef = False, startTimeRef = 0, finalTranscript = [],
       promise = None\<rparr>
      [onstart 1000, onresult [(True, ''hello ''), (False, ''wor'')], onend 3500])
     = Some (Resolved \<lparr>SpeechResult.transcript = ''hello '', duration = 5 / 2\<rparr>)
   \<and> interim (liveTranscript (startListening True
      \<lparr>isListening = False, liveTranscript = \<lparr>final = [], interim = [], wordCount = 0\<rparr>,
       speechDuration = 0, recognitionRef = False, startTimeRef = 0, finalTranscript = [],
       promise = None\<rparr>
      [onstart 1000, onresult [(True, ''hello ''), (False, ''wor'')]])) = ''wor''"
proof -
  let ?r = "\<lparr>isListening = False, liveTranscript = \<lparr>final = [], interim = [], wordCount = 0\<rparr>,
       speechDuration = 0, recognitionRef = False, startTimeRef = 0, finalTranscript = [],
       promise = None\<rparr>"
  have pending: "promise (startListening True ?r
      [onstart 1000, onresult [(True, ''hello ''), (False, ''wor'')]]) = None"
    by (simp add: startListening_def collect_results_def Let_def)
  have live: "interim (liveTranscript (startListening True ?r
      [onstart 1000, onresult [(True, ''hello ''), (False, ''wor'')]])) = ''wor''"
    by (simp add: startListening_def collect_results_def Let_def)
  have start: "startTimeRef (startListening True ?r
      [onstart 1000, onresult [(True, ''hello ''), (False, ''wor'')]]) = 1000"
    by (simp add: startListening_def collect_results_def Let_def)
  from resolved_transcript_is_finalized [OF pending, of 3500 "[]"]
  have "promise (startListening True ?r
      ([onstart 1000, onresult [(True, ''hello ''), (False, ''wor'')]] @ [onend 3500]))
     = Some (Resolved \<lparr>SpeechResult.transcript = ''hello '', duration = 5 / 2\<rparr>)"
    by (simp add: start last_results_def)
  with pending live show ?thesis by simp
qed

section \<open>Properties of the interview loop\<close>

lemma run_Nil: "run s [] = s"
  by (simp add: run_def)

lemma run_Cons: "run s (ev # evs) = run (step s ev) evs"
  by (simp add: run_def)


text \<open>
  C8. A call of \<^verbatim>\<open>startInterview\<close> while the run flag is set leaves the whole hook as
  it is: no action is dispatched, no field of the state changes and no further call is
  suspended. With the flag cleared, the call sets the flag, resets the state, queues
  the opening question as an assistant turn, enters the speaking phase and suspends on
  the speech.
\<close>

theorem start_while_running_is_noop:
  "(isRunningRef s \<longrightarrow>
      step s startInterview = s \<and> fst (react s startInterview) = [])
   \<and> (\<not> isRunningRef s \<longrightarrow>
      step s startInterview =
        \<lparr>state = initialState\<lparr>phase := speaking,
                   history := [\<lparr>role = assistant, content = OPENING_QUESTION\<rparr>]\<rparr>,
         isRunningRef = True,
         calls = calls s @ [AwaitOpeningSpeak]\<rparr>)"
  by (cases s) (simp add: step_def dispatch_def initialState_def)

theorem start_while_running_is_noop_witness:
  "\<not> isRunningRef initial_session
   \<and> isRunningRef (step initial_session startInterview)
   \<and> calls (step initial_session startInterview) = [AwaitOpeningSpeak]
   \<and> phase (state (step initial_session startInterview)) = speaking
   \<and> step (step initial_session startInterview) startInterview
       = step initial_session startInterview"
proof -
  have off: "\<not> isRunningRef initial_session"
    by (simp add: initial_session_def)
  from start_while_running_is_noop [of initial_session] off
  have first: "step initial_session startInterview =
        \<lparr>state = initialState\<lparr>phase := speaking,
                   history := [\<lparr>role = assistant, content = OPENING_QUESTION\<rparr>]\<rparr>,
         isRunningRef = True,
         calls = calls initial_session @ [AwaitOpeningSpeak]\<rparr>"
    by blast
  then have on: "isRunningRef (step initial_session startInterview)"
    by simp
  from start_while_running_is_noop [of "step initial_session startInterview"] on
  have "step (step initial_session startInterview) startInterview
       = step initial_session startInterview"
    by blast
  with off on first show ?thesis
    by (simp add: initial_session_def)
qed

lemma listening_session_eq:
  "listening_session =
     \<lparr>state = \<lparr>phase = listening, transcript = [],
               history = [\<lparr>role = assistant, content = OPENING_QUESTION\<rparr>],
               stats = EMPTY_METRICS, allStats = [], error = None\<rparr>,
      isRunningRef = True, calls = [AwaitListening]\<rparr>"
  by (simp add: listening_session_def run_def step_def dispatch_def initial_session_def
      initialState_def next_round_def)



text \<open>
  C3, as the code has it. When capture resolves with a blank transcript while the run
  flag is set, the phase becomes processing and the user turn appended to the stored
  history has the empty string as its text; the sentence marking silence is the last
  message of the request only. Once the endpoint has answered, the history has gained
  that user turn and one assistant turn, the pacing of the current metrics is 0 and the
  phase is speaking.
\<close>

theorem silent_round:
  assumes "i < length (calls s)" and "calls s ! i = AwaitListening" and "isRunningRef s"
    and "trim (SpeechResult.transcript r) = []" and "ok code"
  shows "phase (state (step s (settle i (listening_settled (Resolved r))))) = processing
       \<and> history (state (step s (settle i (listening_settled (Resolved r)))))
           = history (state s) @ [\<lparr>role = user, content = []\<rparr>]
       \<and> calls (step s (settle i (listening_settled (Resolved r)))) ! i
           = AwaitFetch
               (slice_last 10 (history (state s))
                 @ [\<lparr>role = user, content = SILENT_ANSWER\<rparr>])
               SILENT_ANSWER 0
       \<and> history (state (run s
            [settle i (listening_settled (Resolved r)),
             settle i (fetch_settled (Resolved code)),
             settle i (body_settled (Resolved data))]))
           = history (state s)
               @ [\<lparr>role = user, content = []\<rparr>, \<lparr>role = assistant, content = reply data\<rparr>]
       \<and> pacing_wpm (stats (state (run s
            [settle i (listening_settled (Resolved r)),
             settle i (fetch_settled (Resolved code)),
             settle i (body_settled (Resolved data))]))) = 0
       \<and> phase (state (run s
            [settle i (listening_settled (Resolved r)),
             settle i (fetch_settled (Resolved code)),
             settle i (body_settled (Resolved data))])) = speaking"
  using assms
  by (simp add: run_Cons run_Nil step_def dispatch_def calculateWPM_def)

theorem silent_round_witness:
  "phase (state listening_session) = listening
   \<and> phase (state (step listening_session
        (settle 0 (listening_settled
           (Resolved \<lparr>SpeechResult.transcript = ''  '', duration = 4\<rparr>))))) = processing
   \<and> history (state (run listening_session
        [settle 0 (listening_settled
           (Resolved \<lparr>SpeechResult.transcript = ''  '', duration = 4\<rparr>)),
         settle 0 (fetch_settled (Resolved 200)),
         settle 0 (body_settled (Resolved \<lparr>reply = ''Go on.'', analysis = sample_metrics\<rparr>))]))
     = [\<lparr>role = assistant, content = OPENING_QUESTION\<rparr>,
        \<lparr>role = user, content = []\<rparr>,
        \<lparr>role = assistant, content = ''Go on.''\<rparr>]"
proof -
  have blank: "trim ''  '' = []"
    by (simp add: trim_def is_space_def)
  show ?thesis
    using silent_round [of 0 listening_session
        "\<lparr>SpeechResult.transcript = ''  '', duration = 4\<rparr>" 200
        "\<lparr>reply = ''Go on.'', analysis = sample_metrics\<rparr>"] blank
    by (simp add: listening_session_eq ok_def)
qed

theorem silent_turn_counterexample:
  "last (history (state (step listening_session
      (settle 0 (listening_settled
         (Resolved \<lparr>SpeechResult.transcript = [], duration = 0\<rparr>))))))
   = \<lparr>role = user, content = []\<rparr>
   \<and> \<lparr>role = user, content = SILENT_ANSWER\<rparr>
       \<notin> set (history (state (step listening_session
             (settle 0 (listening_settled
               (Resolved \<lparr>SpeechResult.transcript = [], duration = 0\<rparr>))))))"
  by (simp add: listening_session_eq step_def dispatch_def trim_def SILENT_ANSWER_def)


lemma dispatch_append: "dispatch st (xs @ ys) = dispatch (dispatch st xs) ys"
  by (simp add: dispatch_def)

lemma state_step: "state (step s ev) = dispatch (state s) (fst (react s ev))"
  by (simp add: step_def split: prod.splits)









lemma reading_session_eq:
  "reading_session =
     \<lparr>state = \<lparr>phase = processing, transcript = ''hello there'',
               history = [\<lparr>role = assistant, content = OPENING_QUESTION\<rparr>,
                          \<lparr>role = user, content = ''hello there''\<rparr>],
               stats = EMPTY_METRICS, allStats = [], error = None\<rparr>,
      isRunningRef = True, calls = [AwaitBody ''hello there'' 2]\<rparr>"
  by (simp add: reading_session_def listening_session_eq run_def step_def dispatch_def
      trim_def is_space_def ok_def)

text \<open>
  When the interview is ended while a call is suspended on the opening speech, the
  capture, the request or the reply's speech, the settling of that promise appends
  nothing to the history and leaves the metrics alone, the phase stays idle and the call
  returns.
\<close>

lemma resume_after_end:
  assumes "resume running hist k out = Some (acts, k')" and "\<not> running"
    and "k = AwaitOpeningSpeak \<or> k = AwaitListening \<or> k = AwaitFetch msgs t d \<or> k = AwaitSpeak"
  shows "k' = Returned
       \<and> (acts = [] \<or> (\<exists>e. acts = [SET_ERROR e]) \<or> acts = [FINISH_SPEAKING])"
  using assms
  by (induction running hist k out rule: resume.induct) (auto simp: next_round_def)

lemma end_at_checked_await:
  assumes "i < length (calls s)"
    and "calls s ! i = AwaitOpeningSpeak \<or> calls s ! i = AwaitListening
         \<or> calls s ! i = AwaitFetch msgs t d \<or> calls s ! i = AwaitSpeak"
    and "resume False (history (state s)) (calls s ! i) out \<noteq> None"
  shows "phase (state (run s [endInterview, settle i out])) = idle
       \<and> history (state (run s [endInterview, settle i out])) = history (state s)
       \<and> stats (state (run s [endInterview, settle i out])) = stats (state s)
       \<and> allStats (state (run s [endInterview, settle i out])) = allStats (state s)
       \<and> calls (run s [endInterview, settle i out]) ! i = Returned"
proof -
  obtain acts k where r: "resume False (history (state s)) (calls s ! i) out = Some (acts, k)"
    using assms(3) by (cases "resume False (history (state s)) (calls s ! i) out") auto
  from resume_after_end [OF r _ assms(2)]
  have "k = Returned
       \<and> (acts = [] \<or> (\<exists>e. acts = [SET_ERROR e]) \<or> acts = [FINISH_SPEAKING])"
    by simp
  with r assms(1) show ?thesis
    by (auto simp: run_Cons run_Nil step_def dispatch_def)
qed

text \<open>
  C1, at the one await without a check. The interview is ended while the body of the
  response is being read (\<^verbatim>\<open>await res.json()\<close>): the phase is idle and the flag is
  cleared. When the body arrives, the reply is appended to the history, its metrics to
  allStats, and the phase becomes speaking; after the speech the call returns and the
  phase is still speaking.
\<close>

theorem end_while_reading_body:
  "calls reading_session = [AwaitBody ''hello there'' 2]
   \<and> phase (state (step reading_session endInterview)) = idle
   \<and> \<not> isRunningRef (step reading_session endInterview)
   \<and> history (state (run reading_session
        [endInterview,
         settle 0 (body_settled (Resolved \<lparr>reply = ''Go on.'', analysis = sample_metrics\<rparr>))]))
     = history (state (step reading_session endInterview))
         @ [\<lparr>role = assistant, content = ''Go on.''\<rparr>]
   \<and> allStats (state (run reading_session
        [endInterview,
         settle 0 (body_settled (Resolved \<lparr>reply = ''Go on.'', analysis = sample_metrics\<rparr>))]))
     = allStats (state (step reading_session endInterview))
         @ [sample_metrics\<lparr>pacing_wpm := 60\<rparr>]
   \<and> phase (state (run reading_session
        [endInterview,
         settle 0 (body_settled (Resolved \<lparr>reply = ''Go on.'', analysis = sample_metrics\<rparr>)),
         settle 0 (speak_settled (Resolved ()))])) = speaking
   \<and> calls (run reading_session
        [endInterview,
         settle 0 (body_settled (Resolved \<lparr>reply = ''Go on.'', analysis = sample_metrics\<rparr>)),
         settle 0 (speak_settled (Resolved ()))]) = [Returned]"
proof -
  have wpm: "calculateWPM ''hello there'' 2 = 60"
    by (simp add: calculateWPM_def trim_def is_space_def)
  show ?thesis
    by (simp add: reading_session_eq run_def step_def dispatch_def wpm)
qed

text \<open>
  C2, when an interview is restarted over a pending capture. The first call of
  \<^verbatim>\<open>startInterview\<close> is still suspended in \<^verbatim>\<open>startListening\<close> when the interview is
  ended and started again; the new call is speaking the opening question when the old
  capture resolves, the old call finds the run flag set and dispatches
  \<^verbatim>\<open>START_PROCESSING\<close>: the phase goes from speaking to processing, which the table does
  not have.
\<close>

theorem restart_leaves_table:
  "phase (state (run initial_session (butlast restart_events))) = speaking
   \<and> calls (run initial_session (butlast restart_events)) = [AwaitListening, AwaitOpeningSpeak]
   \<and> phase (state (run initial_session restart_events)) = processing
   \<and> \<not> table speaking processing
   \<and> \<not> follows_table initialState (dispatched initial_session restart_events)"
  by (simp add: restart_events_def run_def step_def dispatch_def initial_session_def
      initialState_def next_round_def trim_def is_space_def)

section \<open>Properties of the endpoint and of its use by the loop\<close>

lemma fetching_session_eq:
  "fetching_session =
     \<lparr>state = \<lparr>phase = processing, transcript = ''hello there'',
               history = [\<lparr>role = assistant, content = OPENING_QUESTION\<rparr>,
                          \<lparr>role = user, content = ''hello there''\<rparr>],
               stats = EMPTY_METRICS, allStats = [], error = None\<rparr>,
      isRunningRef = True,
      calls = [AwaitFetch [\<lparr>role = assistant, content = OPENING_QUESTION\<rparr>,
                           \<lparr>role = user, content = ''hello there''\<rparr>]
                 ''hello there'' 2]\<rparr>"
  by (simp add: fetching_session_def listening_session_eq run_def step_def dispatch_def
      trim_def is_space_def slice_last_def)

text \<open>
  Once the request is accepted, the handler answers with status 200 whatever the model
  does: with the parsed payload when it has a string reply and a truthy analysis, and
  with the fallback in every other case.
\<close>

lemma POST_accepted:
  assumes "read_prop b ''messages'' = Inr (Some (JArr msgs))"
    and "validate_messages msgs = Inr True"
  shows "POST parse (Resolved b) completion
           = \<lparr>status = 200, body = response_json FALLBACK_RESPONSE\<rparr>
       \<or> (\<exists>c p r a. completion = Resolved (Some c) \<and> c \<noteq> [] \<and> parse c = Some p
            \<and> read_prop p ''reply'' = Inr (Some (JStr r))
            \<and> read_prop p ''analysis'' = Inr (Some a) \<and> truthy (Some a)
            \<and> POST parse (Resolved b) completion = \<lparr>status = 200, body = p\<rparr>)"
proof (cases completion)
  case (Rejected e)
  with assms show ?thesis by (simp add: POST_def POST_try_def)
next
  case (Resolved content)
  show ?thesis
  proof (cases content)
    case None
    with Resolved assms show ?thesis by (simp add: POST_def POST_try_def)
  next
    case (Some c)
    show ?thesis
    proof (cases "c = [] \<or> parse c = None")
      case True
      with Some Resolved assms show ?thesis
        by (auto simp: POST_def POST_try_def)
    next
      case False
      then obtain p where p: "c \<noteq> []" "parse c = Some p" by auto
      show ?thesis
      proof (cases "read_prop p ''reply''")
        case (Inl e)
        with p Some Resolved assms show ?thesis by (simp add: POST_def POST_try_def)
      next
        case (Inr r)
        note reply = Inr
        show ?thesis
        proof (cases "is_string r")
          case False
          with reply p Some Resolved assms show ?thesis by (simp add: POST_def POST_try_def)
        next
          case True
          then obtain t where t: "r = Some (JStr t)"
            by (cases r rule: is_string.cases) auto
          show ?thesis
          proof (cases "read_prop p ''analysis''")
            case (Inl e)
            with reply True p Some Resolved assms show ?thesis
              by (simp add: POST_def POST_try_def)
          next
            case (Inr a)
            show ?thesis
            proof (cases "truthy a")
              case False
              with Inr reply True p Some Resolved assms show ?thesis
                by (simp add: POST_def POST_try_def)
            next
              case truthy: True
              then obtain v where v: "a = Some v" by (cases a) auto
              with truthy Inr reply True t p Some Resolved assms show ?thesis
                by (simp add: POST_def POST_try_def)
            qed
          qed
        qed
      qed
    qed
  qed
qed

text \<open>
  C4, as the code has it. A failure inside the handler, once the request is accepted
  (the call of the model throws, there is no content, the content does not parse, the
  payload has no string reply or no analysis), is answered with status 200 and the
  fixed fallback; an unreadable request body is answered the same way. On that answer
  the round goes on to the speaking phase and the error field keeps its value. A
  rejected fetch or a response that is not ok is not converted: the loop dispatches
  \<^verbatim>\<open>SET_ERROR\<close>, which sets the error field and the idle phase, and then begins the next
  round.
\<close>

theorem endpoint_failures:
  assumes "read_prop b ''messages'' = Inr (Some (JArr msgs))"
    and "validate_messages msgs = Inr True"
    and "i < length (calls s)" and "calls s ! i = AwaitFetch m t d" and "isRunningRef s"
  shows "(POST parse (Resolved b) completion
            = \<lparr>status = 200, body = response_json FALLBACK_RESPONSE\<rparr>
          \<or> (\<exists>c p r a. completion = Resolved (Some c) \<and> c \<noteq> [] \<and> parse c = Some p
               \<and> read_prop p ''reply'' = Inr (Some (JStr r))
               \<and> read_prop p ''analysis'' = Inr (Some a) \<and> truthy (Some a)
               \<and> POST parse (Resolved b) completion = \<lparr>status = 200, body = p\<rparr>))
       \<and> POST parse (Rejected e) completion
            = \<lparr>status = 200, body = response_json FALLBACK_RESPONSE\<rparr>
       \<and> ok 200
       \<and> phase (state (run s [settle i (fetch_settled (Resolved 200)),
                               settle i (body_settled (Resolved FALLBACK_RESPONSE))])) = speaking
       \<and> error (state (run s [settle i (fetch_settled (Resolved 200)),
                               settle i (body_settled (Resolved FALLBACK_RESPONSE))]))
            = error (state s)
       \<and> history (state (run s [settle i (fetch_settled (Resolved 200)),
                                 settle i (body_settled (Resolved FALLBACK_RESPONSE))]))
            = history (state s) @ [\<lparr>role = assistant, content = reply FALLBACK_RESPONSE\<rparr>]
       \<and> stats (state (run s [settle i (fetch_settled (Resolved 200)),
                               settle i (body_settled (Resolved FALLBACK_RESPONSE))]))
            = (analysis FALLBACK_RESPONSE)\<lparr>pacing_wpm := of_int (calculateWPM t d)\<rparr>
       \<and> fst (react s (settle i (fetch_settled (Rejected x))))
            = [SET_ERROR (message_or x ''Something went wrong''), START_LISTENING]
       \<and> (\<not> ok code \<longrightarrow>
            fst (react (step s (settle i (fetch_settled (Resolved code))))
                   (settle i (error_body_settled (Resolved err))))
            = [SET_ERROR (api_error_message err code), START_LISTENING])
       \<and> phase (reducer st (SET_ERROR msg)) = idle
       \<and> error (reducer st (SET_ERROR msg)) = Some msg"
proof -
  note accepted = POST_accepted [OF assms(1,2), of parse completion]
  have unreadable: "POST parse (Rejected e) completion
            = \<lparr>status = 200, body = response_json FALLBACK_RESPONSE\<rparr>"
    by (simp add: POST_def POST_try_def)
  have served: "ok 200"
    by (simp add: ok_def)
  have goes_on:
    "state (run s [settle i (fetch_settled (Resolved 200)),
                   settle i (body_settled (Resolved FALLBACK_RESPONSE))])
     = (state s)\<lparr>stats := (analysis FALLBACK_RESPONSE)\<lparr>pacing_wpm := of_int (calculateWPM t d)\<rparr>,
         allStats := allStats (state s)
            @ [(analysis FALLBACK_RESPONSE)\<lparr>pacing_wpm := of_int (calculateWPM t d)\<rparr>],
         history := history (state s) @ [\<lparr>role = assistant, content = reply FALLBACK_RESPONSE\<rparr>],
         phase := speaking\<rparr>"
    using assms(3-5) by (simp add: run_Cons run_Nil step_def dispatch_def ok_def)
  have transport: "fst (react s (settle i (fetch_settled (Rejected x))))
            = [SET_ERROR (message_or x ''Something went wrong''), START_LISTENING]"
    using assms(3-5) by (simp add: next_round_def)
  have refused: "\<not> ok code \<longrightarrow>
            fst (react (step s (settle i (fetch_settled (Resolved code))))
                   (settle i (error_body_settled (Resolved err))))
            = [SET_ERROR (api_error_message err code), START_LISTENING]"
    using assms(3-5) by (simp add: step_def next_round_def)
  show ?thesis
    using accepted unreadable served transport refused
    by (simp only: goes_on) simp
qed

theorem endpoint_failures_witness:
  "POST sample_parse (Resolved sample_request) (Rejected (Error ''timeout''))
     = \<lparr>status = 200, body = response_json FALLBACK_RESPONSE\<rparr>
   \<and> isRunningRef fetching_session
   \<and> phase (state (run fetching_session
        [settle 0 (fetch_settled (Resolved 200)),
         settle 0 (body_settled (Resolved FALLBACK_RESPONSE))])) = speaking
   \<and> error (state (run fetching_session
        [settle 0 (fetch_settled (Resolved 200)),
         settle 0 (body_settled (Resolved FALLBACK_RESPONSE))])) = None
   \<and> fst (react fetching_session (settle 0 (fetch_settled (Rejected (Error ''Failed to fetch'')))))
       = [SET_ERROR ''Failed to fetch'', START_LISTENING]
   \<and> \<not> ok 500
   \<and> fst (react (step fetching_session (settle 0 (fetch_settled (Resolved 500))))
             (settle 0 (error_body_settled (Resolved None))))
       = [SET_ERROR ''API error: 500'', START_LISTENING]"
proof -
  have request: "read_prop sample_request ''messages''
      = Inr (Some (JArr [JObj [(''role'', JStr ''user''), (''content'', JStr ''hello there'')]]))"
    by (simp add: sample_request_def read_prop_def)
  have valid: "validate_messages
      [JObj [(''role'', JStr ''user''), (''content'', JStr ''hello there'')]] = Inr True"
    by (simp add: read_prop_def)
  have call: "0 < length (calls fetching_session)"
    "calls fetching_session ! 0
       = AwaitFetch [\<lparr>role = assistant, content = OPENING_QUESTION\<rparr>,
                     \<lparr>role = user, content = ''hello there''\<rparr>] ''hello there'' 2"
    "isRunningRef fetching_session"
    by (simp_all add: fetching_session_eq)
  have refused: "\<not> ok 500"
    by (simp add: ok_def)
  have message: "api_error_message None 500 = ''API error: 500''"
    by (simp add: api_error_message_def)
  from endpoint_failures [OF request valid call, of sample_parse "Rejected (Error ''timeout'')"
      NonError "Error ''Failed to fetch''" 500 None initialState "[]"]
  show ?thesis
    using refused message call(3) by (simp add: fetching_session_eq)
qed

theorem fetch_failure_counterexample:
  "dispatched fetching_session
     [settle 0 (fetch_settled (Rejected (Error ''Failed to fetch'')))]
     = [SET_ERROR ''Failed to fetch'', START_LISTENING]
   \<and> error (reducer (state fetching_session) (SET_ERROR ''Failed to fetch''))
       = Some ''Failed to fetch''
   \<and> phase (reducer (state fetching_session) (SET_ERROR ''Failed to fetch'')) = idle
   \<and> phase (state (step fetching_session
        (settle 0 (fetch_settled (Rejected (Error ''Failed to fetch'')))))) = listening
   \<and> history (state (step fetching_session
        (settle 0 (fetch_settled (Rejected (Error ''Failed to fetch''))))))
       = history (state fetching_session)"
  by (simp add: fetching_session_eq step_def dispatch_def next_round_def)

text \<open>
  The empty user turn that a silent round stores is part of the next request, and the
  handler of app/api/chat/route.ts refuses a message with empty content: the round after
  a silent one is answered with status 400.
\<close>

lemma silent_turn_refused_next_round:
  "calls (run listening_session silent_then_hello)
     = [AwaitFetch [\<lparr>role = assistant, content = OPENING_QUESTION\<rparr>,
                    \<lparr>role = user, content = []\<rparr>,
                    \<lparr>role = assistant, content = ''Go on.''\<rparr>,
                    \<lparr>role = user, content = ''hello''\<rparr>] ''hello'' 1]
   \<and> POST parse
        (Resolved (request_json [\<lparr>role = assistant, content = OPENING_QUESTION\<rparr>,
                                 \<lparr>role = user, content = []\<rparr>,
                                 \<lparr>role = assistant, content = ''Go on.''\<rparr>,
                                 \<lparr>role = user, content = ''hello''\<rparr>]))
        completion
     = \<lparr>status = 400, body = error_json ''Invalid message format: role and content required''\<rparr>"
proof -
  have nonempty: "OPENING_QUESTION \<noteq> []"
    by (simp add: OPENING_QUESTION_def)
  have "calls (run listening_session silent_then_hello)
     = [AwaitFetch [\<lparr>role = assistant, content = OPENING_QUESTION\<rparr>,
                    \<lparr>role = user, content = []\<rparr>,
                    \<lparr>role = assistant, content = ''Go on.''\<rparr>,
                    \<lparr>role = user, content = ''hello''\<rparr>] ''hello'' 1]"
    by (simp add: silent_then_hello_def listening_session_eq run_def step_def dispatch_def
        next_round_def trim_def is_space_def slice_last_def ok_def)
  moreover have "POST parse
        (Resolved (request_json [\<lparr>role = assistant, content = OPENING_QUESTION\<rparr>,
                                 \<lparr>role = user, content = []\<rparr>,
                                 \<lparr>role = assistant, content = ''Go on.''\<rparr>,
                                 \<lparr>role = user, content = ''hello''\<rparr>]))
        completion
     = \<lparr>status = 400, body = error_json ''Invalid message format: role and content required''\<rparr>"
    using nonempty
    by (simp add: POST_def POST_try_def request_json_def message_json_def read_prop_def)
  ultimately show ?thesis by simp
qed





section \<open>The transition table in sessions without overlapping calls\<close>

lemma table_idle: "table p idle"
  by (cases p) simp_all

lemma follows_table_append:
  "follows_table st (xs @ ys) = (follows_table st xs \<and> follows_table (dispatch st xs) ys)"
  by (induction xs arbitrary: st) (auto simp: dispatch_def)

lemma resume_running_table:
  assumes "resume running hist k out = Some (acts, k')" and "running"
    and "phase st = expected_phase k"
  shows "follows_table st acts \<and> k' \<noteq> Returned
       \<and> phase (dispatch st acts) = expected_phase k'"
  using assms
  by (induction running hist k out rule: resume.induct)
     (auto simp: next_round_def dispatch_def table_idle split: if_splits)

lemma resume_stopped_table:
  assumes "resume running hist k out = Some (acts, k')" and "\<not> running"
    and "phase st = idle \<or> (phase st = speaking \<and> k = AwaitSpeak)"
  shows "follows_table st acts
       \<and> (phase (dispatch st acts) = idle
          \<or> (phase (dispatch st acts) = speaking \<and> (k' = AwaitSpeak \<or> k' = Returned)))"
  using assms
  by (induction running hist k out rule: resume.induct)
     (auto simp: next_round_def dispatch_def table_idle split: if_splits)

lemma resume_Returned: "resume running hist Returned out = None"
  by (cases out) simp_all

lemma all_Returned_nth:
  "list_all (\<lambda>k. k = Returned) cs \<Longrightarrow> i < length cs \<Longrightarrow> cs ! i = Returned"
  by (simp add: list_all_length)

lemma single_call_quiet:
  assumes "list_all (\<lambda>k. k = Returned) (calls s)" and "\<not> isRunningRef s"
    and "phase (state s) = idle \<or> phase (state s) = speaking"
  shows "single_call s"
  unfolding single_call_def using assms by simp

lemma single_call_running:
  assumes "i < length (calls s)" and "calls s ! i \<noteq> Returned"
    and "\<forall>j < length (calls s). j \<noteq> i \<longrightarrow> calls s ! j = Returned"
    and "isRunningRef s" and "phase (state s) = expected_phase (calls s ! i)"
  shows "single_call s"
proof -
  have "\<exists>i < length (calls s).
            calls s ! i \<noteq> Returned
            \<and> (\<forall>j < length (calls s). j \<noteq> i \<longrightarrow> calls s ! j = Returned)
            \<and> (if isRunningRef s then phase (state s) = expected_phase (calls s ! i)
               else phase (state s) = idle
                    \<or> (phase (state s) = speaking \<and> calls s ! i = AwaitSpeak))"
    using assms by (intro exI [of _ i]) simp
  then show ?thesis unfolding single_call_def by (rule disjI2)
qed

lemma single_call_stopped:
  assumes "i < length (calls s)" and "calls s ! i \<noteq> Returned"
    and "\<forall>j < length (calls s). j \<noteq> i \<longrightarrow> calls s ! j = Returned"
    and "\<not> isRunningRef s"
    and "phase (state s) = idle \<or> (phase (state s) = speaking \<and> calls s ! i = AwaitSpeak)"
  shows "single_call s"
proof -
  have "\<exists>i < length (calls s).
            calls s ! i \<noteq> Returned
            \<and> (\<forall>j < length (calls s). j \<noteq> i \<longrightarrow> calls s ! j = Returned)
            \<and> (if isRunningRef s then phase (state s) = expected_phase (calls s ! i)
               else phase (state s) = idle
                    \<or> (phase (state s) = speaking \<and> calls s ! i = AwaitSpeak))"
    using assms by (intro exI [of _ i]) simp
  then show ?thesis unfolding single_call_def by (rule disjI2)
qed

lemma single_call_live:
  assumes "single_call s" and "i < length (calls s)" and "calls s ! i \<noteq> Returned"
  shows "(\<forall>j < length (calls s). j \<noteq> i \<longrightarrow> calls s ! j = Returned)
       \<and> (isRunningRef s \<longrightarrow> phase (state s) = expected_phase (calls s ! i))
       \<and> (\<not> isRunningRef s \<longrightarrow>
            phase (state s) = idle \<or> (phase (state s) = speaking \<and> calls s ! i = AwaitSpeak))"
proof -
  have "\<not> list_all (\<lambda>k. k = Returned) (calls s)"
    using assms(2,3) all_Returned_nth by blast
  with assms(1) obtain i' where i': "i' < length (calls s)"
      "\<forall>j < length (calls s). j \<noteq> i' \<longrightarrow> calls s ! j = Returned"
      "if isRunningRef s then phase (state s) = expected_phase (calls s ! i')
       else phase (state s) = idle \<or> (phase (state s) = speaking \<and> calls s ! i' = AwaitSpeak)"
    unfolding single_call_def by blast
  from i'(2) assms(2,3) have "i' = i" by blast
  with i' show ?thesis by (cases "isRunningRef s") simp_all
qed

lemma settle_single_call:
  assumes sc: "single_call s" and i: "i < length (calls s)"
    and r: "resume (isRunningRef s) (history (state s)) (calls s ! i) out = Some (acts, k)"
  shows "follows_table (state s) acts \<and> single_call (step s (settle i out))"
proof -
  have live: "calls s ! i \<noteq> Returned"
  proof
    assume "calls s ! i = Returned"
    with r show False by (simp add: resume_Returned)
  qed
  from single_call_live [OF sc i live]
  have others: "\<forall>j < length (calls s). j \<noteq> i \<longrightarrow> calls s ! j = Returned"
    and on: "isRunningRef s \<Longrightarrow> phase (state s) = expected_phase (calls s ! i)"
    and off: "\<not> isRunningRef s \<Longrightarrow>
       phase (state s) = idle \<or> (phase (state s) = speaking \<and> calls s ! i = AwaitSpeak)"
    by simp_all
  have st: "state (step s (settle i out)) = dispatch (state s) acts"
    "calls (step s (settle i out)) = (calls s)[i := k]"
    "isRunningRef (step s (settle i out)) = isRunningRef s"
    using i r by (simp_all add: step_def)
  have rest: "\<forall>j < length (calls (step s (settle i out))). j \<noteq> i \<longrightarrow>
      calls (step s (settle i out)) ! j = Returned"
    using others by (simp add: st)
  have here: "i < length (calls (step s (settle i out)))"
    "calls (step s (settle i out)) ! i = k"
    using i by (simp_all add: st)
  show ?thesis
  proof (cases "isRunningRef s")
    case True
    from resume_running_table [OF r True on [OF True]]
    have t: "follows_table (state s) acts" "k \<noteq> Returned"
      "phase (dispatch (state s) acts) = expected_phase k"
      by simp_all
    have "single_call (step s (settle i out))"
    proof (rule single_call_running [OF here(1) _ rest])
      show "calls (step s (settle i out)) ! i \<noteq> Returned" using here t by simp
      show "isRunningRef (step s (settle i out))" using True by (simp add: st)
      show "phase (state (step s (settle i out)))
          = expected_phase (calls (step s (settle i out)) ! i)"
        using t here by (simp add: st)
    qed
    with t show ?thesis by simp
  next
    case False
    from resume_stopped_table [OF r False off [OF False]]
    have t: "follows_table (state s) acts"
      "phase (dispatch (state s) acts) = idle
        \<or> (phase (dispatch (state s) acts) = speaking \<and> (k = AwaitSpeak \<or> k = Returned))"
      by simp_all
    have "single_call (step s (settle i out))"
    proof (cases "k = Returned")
      case True
      have "\<forall>j < length (calls (step s (settle i out))).
          calls (step s (settle i out)) ! j = Returned"
      proof (intro allI impI)
        fix j assume "j < length (calls (step s (settle i out)))"
        with rest here True show "calls (step s (settle i out)) ! j = Returned"
          by (cases "j = i") simp_all
      qed
      then have "list_all (\<lambda>k. k = Returned) (calls (step s (settle i out)))"
        by (simp add: list_all_length)
      moreover have "\<not> isRunningRef (step s (settle i out))"
        using False by (simp add: st)
      moreover have "phase (state (step s (settle i out))) = idle
          \<or> phase (state (step s (settle i out))) = speaking"
        using t(2) by (auto simp: st)
      ultimately show ?thesis by (rule single_call_quiet)
    next
      case live': False
      show ?thesis
      proof (rule single_call_stopped [OF here(1) _ rest])
        show "calls (step s (settle i out)) ! i \<noteq> Returned" using here live' by simp
        show "\<not> isRunningRef (step s (settle i out))" using False by (simp add: st)
        show "phase (state (step s (settle i out))) = idle
            \<or> (phase (state (step s (settle i out))) = speaking
               \<and> calls (step s (settle i out)) ! i = AwaitSpeak)"
          using t(2) live' here by (auto simp: st)
      qed
    qed
    with t show ?thesis by simp
  qed
qed

lemma step_ignored:
  assumes "react s ev = ([], isRunningRef s, calls s)"
  shows "step s ev = s"
  using assms by (cases s) (simp add: step_def dispatch_def)

lemma end_single_call:
  assumes "single_call s"
  shows "single_call (step s endInterview)"
proof -
  have st: "phase (state (step s endInterview)) = idle"
    "calls (step s endInterview) = calls s" "\<not> isRunningRef (step s endInterview)"
    by (simp_all add: step_def dispatch_def)
  show ?thesis
  proof (cases "list_all (\<lambda>k. k = Returned) (calls s)")
    case True
    with st show ?thesis by (intro single_call_quiet) simp_all
  next
    case False
    then obtain i where i: "i < length (calls s)" "calls s ! i \<noteq> Returned"
      by (auto simp: list_all_length)
    from single_call_live [OF assms i]
    have "\<forall>j < length (calls s). j \<noteq> i \<longrightarrow> calls s ! j = Returned" by simp
    with i st show ?thesis by (intro single_call_stopped [of i]) simp_all
  qed
qed

lemma start_single_call:
  assumes "\<not> isRunningRef s" and "list_all (\<lambda>k. k = Returned) (calls s)"
  shows "single_call (step s startInterview)"
proof -
  have st: "phase (state (step s startInterview)) = speaking"
    "calls (step s startInterview) = calls s @ [AwaitOpeningSpeak]"
    "isRunningRef (step s startInterview)"
    using assms(1) by (simp_all add: step_def dispatch_def initialState_def)
  have "\<forall>j < length (calls s @ [AwaitOpeningSpeak]). j \<noteq> length (calls s) \<longrightarrow>
      (calls s @ [AwaitOpeningSpeak]) ! j = Returned"
    using assms(2) by (auto simp: nth_append list_all_length)
  then show ?thesis
    by (intro single_call_running [of "length (calls s)"]) (simp_all add: st)
qed

lemma step_single_call:
  assumes "single_call s"
    and "ev = startInterview \<Longrightarrow> isRunningRef s \<or> list_all (\<lambda>k. k = Returned) (calls s)"
  shows "follows_table (state s) (fst (react s ev)) \<and> single_call (step s ev)"
proof (cases ev)
  case endInterview
  with end_single_call [OF assms(1)] show ?thesis by (simp add: table_idle)
next
  case startInterview
  show ?thesis
  proof (cases "isRunningRef s")
    case True
    then have "react s startInterview = ([], isRunningRef s, calls s)" by simp
    from step_ignored [OF this] this startInterview assms(1) show ?thesis by simp
  next
    case False
    with assms(2) startInterview have quiet: "list_all (\<lambda>k. k = Returned) (calls s)"
      by simp
    have "follows_table (state s) (fst (react s startInterview))"
      using False by (simp add: table_idle initialState_def)
    with start_single_call [OF False quiet] startInterview show ?thesis by simp
  qed
next
  case (settle i out)
  show ?thesis
  proof (cases "i < length (calls s)")
    case False
    then have "react s (settle i out) = ([], isRunningRef s, calls s)" by simp
    from step_ignored [OF this] this settle assms(1) show ?thesis by simp
  next
    case i: True
    show ?thesis
    proof (cases "resume (isRunningRef s) (history (state s)) (calls s ! i) out")
      case None
      with i have "react s (settle i out) = ([], isRunningRef s, calls s)" by simp
      from step_ignored [OF this] this settle assms(1) show ?thesis by simp
    next
      case (Some p)
      obtain acts k where p: "p = (acts, k)" by (cases p)
      from Some p i have "fst (react s (settle i out)) = acts" by simp
      with settle_single_call [OF assms(1) i Some [unfolded p]] settle
      show ?thesis by simp
    qed
  qed
qed

text \<open>
  As long as no interview is started over a call that has not yet returned, every
  reducer step keeps the phase or moves it along the table.
\<close>

lemma no_overlap_follows_table:
  assumes "single_call s" and "no_overlap s evs"
  shows "follows_table (state s) (dispatched s evs)"
  using assms
proof (induction evs arbitrary: s)
  case Nil
  then show ?case by simp
next
  case (Cons ev evs)
  have "ev = startInterview \<Longrightarrow> isRunningRef s \<or> list_all (\<lambda>k. k = Returned) (calls s)"
    using Cons.prems(2) by simp
  from step_single_call [OF Cons.prems(1) this]
  have now: "follows_table (state s) (fst (react s ev))" and later: "single_call (step s ev)"
    by simp_all
  from Cons.prems(2) have "no_overlap (step s ev) evs" by simp
  from Cons.IH [OF later this] now show ?case
    by (simp add: follows_table_append state_step)
qed

lemma single_call_initial: "single_call initial_session"
  by (simp add: single_call_def initial_session_def initialState_def)

lemma no_overlap_from_start:
  assumes "no_overlap initial_session evs"
  shows "follows_table initialState (dispatched initial_session evs)"
  using no_overlap_follows_table [OF single_call_initial assms]
  by (simp add: initial_session_def)

end
